theory Spec2Isabelle
  imports Main "HOL-Library.Sublist"
begin

section \<open>Data model\<close>

text \<open>
  A \<open>datetime\<close> is a point on a totally ordered time line; it is modelled as the number of
  microseconds since some epoch (Python's \<open>datetime\<close> has microsecond resolution).
\<close>

type_synonym timestamp = int

text \<open>
  Modelled from the spec: the \<open>models\<close> module (\<open>Message\<close>, \<open>Group\<close>) is not among the
  source files. The records hold the fields that \<open>router.py\<close> and
  \<open>summarize_and_send_to_groups/__init__.py\<close> read and write. \<open>text\<close> is optional
  (\<open>Router.__call__\<close> tests it against \<open>None\<close>), \<open>group_name\<close> is optional
  (\<open>group.group_name or "group"\<close>); a message outside every group has no \<open>group_jid\<close>.
\<close>

record Message =
  message_id :: string
  chat_jid :: string
  msg_group_jid :: "string option"
  sender_jid :: string
  msg_text :: "string option"
  timestamp :: timestamp

record Group =
  group_jid :: string
  group_name :: "string option"
  managed :: bool
  last_summary_sync :: timestamp

record SendMessageRequest =
  phone :: string
  message :: string

datatype IntentEnum = Intent_summarize | Intent_ask_question | Intent_about | Intent_other

text \<open>
  The exceptions the code tells apart: \<open>pydantic_ai.exceptions.ModelHTTPError\<close>, kept with
  \<open>str(e.body)\<close>, and every other subclass of \<open>Exception\<close>, kept with its message.
  Exceptions outside \<open>Exception\<close> (task cancellation, interpreter exit) are not modelled.
\<close>

datatype exn = ModelHTTPError string | OtherError string

datatype level = DEBUG | INFO | WARNING | ERROR

datatype log_arg = Str string | OptStr "string option" | Exn exn

subsection \<open>Statements handed to the persistence session\<close>

text \<open>
  The code builds a \<open>select(Message)\<close> statement from \<open>where\<close> clauses, an optional
  \<open>order_by(desc(Message.timestamp))\<close> and an optional \<open>limit\<close>, and hands it to
  \<open>session.exec\<close>. The statement is data; \<open>exec_stmt\<close> further down is what a database
  holding a table of messages answers.
\<close>

datatype cond =
    ChatJidEq string
  | GroupJidEq string
  | TimestampGe timestamp
  | SenderJidNe string

record stmt =
  wheres :: "cond list"
  order_by_desc_timestamp :: bool
  limit :: "nat option"

definition select_Message :: stmt where
  "select_Message = \<lparr>wheres = [], order_by_desc_timestamp = False, limit = None\<rparr>"

definition where_clause :: "stmt \<Rightarrow> cond \<Rightarrow> stmt" where
  "where_clause s c = s\<lparr>wheres := wheres s @ [c]\<rparr>"

definition order_by_desc :: "stmt \<Rightarrow> stmt" where
  "order_by_desc s = s\<lparr>order_by_desc_timestamp := True\<rparr>"

definition limit_rows :: "stmt \<Rightarrow> nat \<Rightarrow> stmt" where
  "limit_rows s n = s\<lparr>limit := Some n\<rparr>"

fun holds :: "cond \<Rightarrow> Message \<Rightarrow> bool" where
  "holds (ChatJidEq c) m = (chat_jid m = c)"
| "holds (GroupJidEq g) m = (msg_group_jid m = Some g)"
| "holds (TimestampGe t) m = (t \<le> timestamp m)"
| "holds (SenderJidNe s) m = (sender_jid m \<noteq> s)"

text \<open>
  The rows that satisfy every \<open>where\<close> clause, newest first when the statement orders them
  (rows with equal timestamps stay in table order: SQL leaves their order open), cut at
  the limit.
\<close>

definition exec_stmt :: "Message list \<Rightarrow> stmt \<Rightarrow> Message list" where
  "exec_stmt table s =
     (let rows = filter (\<lambda>m. list_all (\<lambda>c. holds c m) (wheres s)) table;
          ordered = (if order_by_desc_timestamp s
                     then sort_key (\<lambda>m. - timestamp m) rows else rows)
      in case limit s of None \<Rightarrow> ordered | Some n \<Rightarrow> take n ordered)"

datatype group_cond = ManagedEq bool

fun holds_group :: "group_cond \<Rightarrow> Group \<Rightarrow> bool" where
  "holds_group (ManagedEq b) g = (managed g = b)"

definition exec_group_stmt :: "Group list \<Rightarrow> group_cond list \<Rightarrow> Group list" where
  "exec_group_stmt table cs = filter (\<lambda>g. list_all (\<lambda>c. holds_group c g) cs) table"

subsection \<open>Language-model agents\<close>

text \<open>
  An agent is built from a chat model and a system prompt. The prompts are long string
  constants; only which prompt it is (and, for the scheduled summary, the group name
  spliced into it) is kept.
\<close>

datatype chat_model = Settings_chat_model | OpenAIModel string

datatype system_prompt =
    Route_prompt
  | Router_summarize_prompt
  | Group_summary_prompt string

section \<open>Programs over the external collaborators\<close>

text \<open>
  Every \<open>await\<close> on a collaborator (persistence session, chat transport, language model),
  every clock reading and every log record is a node of a program tree. A call that can
  raise hands \<open>Inl e\<close> or \<open>Inr v\<close> to the rest of the program, which decides what to do
  with the exception as the \<open>try\<close>/\<open>except\<close> of the source does. A function that can
  raise returns \<open>exn + 'a\<close>.

  \<^item> \<open>GetMyJid\<close> is \<open>(await whatsapp.get_my_jid()).normalize_str()\<close>;
  \<^item> \<open>SessionExec s\<close> is \<open>list((await session.exec(s)).all())\<close>;
  \<^item> \<open>AgentRun m p x\<close> is \<open>(await Agent(model=m, system_prompt=p, output_type=str).run(x)).output\<close>,
    \<open>AgentRunIntent\<close> the same with \<open>output_type=Intent\<close>, read at \<open>.output.intent\<close>;
  \<^item> \<open>WhatsappSendMessage\<close> is \<open>whatsapp.send_message\<close>, \<open>HandlerSendMessage\<close> is
    \<open>BaseHandler.send_message(to_jid, message, in_reply_to)\<close>;
  \<^item> \<open>SessionCommit g\<close> is \<open>session.add(g); await session.commit()\<close>;
  \<^item> \<open>Sleep lo hi\<close> waits \<open>random.uniform(lo, hi)\<close> seconds.
\<close>

datatype 'a prog =
    Return 'a
  | Log level string "log_arg list" "'a prog"
  | Now "timestamp \<Rightarrow> 'a prog"
  | Sleep nat nat "'a prog"
  | GetMyJid "exn + string \<Rightarrow> 'a prog"
  | SessionExec stmt "exn + Message list \<Rightarrow> 'a prog"
  | SessionExecGroups "group_cond list" "exn + Group list \<Rightarrow> 'a prog"
  | AgentRun chat_model system_prompt string "exn + string \<Rightarrow> 'a prog"
  | AgentRunIntent chat_model system_prompt string "exn + IntentEnum \<Rightarrow> 'a prog"
  | WhatsappSendMessage SendMessageRequest "exn + unit \<Rightarrow> 'a prog"
  | HandlerSendMessage string string string "exn + unit \<Rightarrow> 'a prog"
  | GetRelatedCommunityGroups Group "exn + Group list \<Rightarrow> 'a prog"
  | SessionCommit Group "exn + unit \<Rightarrow> 'a prog"

text \<open>What a run did, in order: each call with the answer it got.\<close>

datatype event =
    Logged level string "log_arg list"
  | ReadClock timestamp
  | Slept nat nat
  | GotMyJid "exn + string"
  | Executed stmt "exn + Message list"
  | ExecutedGroups "group_cond list" "exn + Group list"
  | AgentRan chat_model system_prompt string "exn + string"
  | AgentRanIntent chat_model system_prompt string "exn + IntentEnum"
  | WhatsappSent SendMessageRequest "exn + unit"
  | HandlerSent string string string "exn + unit"
  | GotRelatedCommunityGroups Group "exn + Group list"
  | Committed Group "exn + unit"

text \<open>
  The collaborators: each answers a call from the state \<open>'w\<close> of the outside world and
  moves that state on. Nothing is assumed about them.
\<close>

record 'w env =
  clock :: "'w \<Rightarrow> timestamp \<times> 'w"
  get_my_jid :: "'w \<Rightarrow> (exn + string) \<times> 'w"
  session_exec :: "stmt \<Rightarrow> 'w \<Rightarrow> (exn + Message list) \<times> 'w"
  session_exec_groups :: "group_cond list \<Rightarrow> 'w \<Rightarrow> (exn + Group list) \<times> 'w"
  agent_run :: "chat_model \<Rightarrow> system_prompt \<Rightarrow> string \<Rightarrow> 'w \<Rightarrow> (exn + string) \<times> 'w"
  agent_run_intent ::
    "chat_model \<Rightarrow> system_prompt \<Rightarrow> string \<Rightarrow> 'w \<Rightarrow> (exn + IntentEnum) \<times> 'w"
  whatsapp_send_message :: "SendMessageRequest \<Rightarrow> 'w \<Rightarrow> (exn + unit) \<times> 'w"
  handler_send_message :: "string \<Rightarrow> string \<Rightarrow> string \<Rightarrow> 'w \<Rightarrow> (exn + unit) \<times> 'w"
  get_related_community_groups :: "Group \<Rightarrow> 'w \<Rightarrow> (exn + Group list) \<times> 'w"
  session_commit :: "Group \<Rightarrow> 'w \<Rightarrow> (exn + unit) \<times> 'w"

definition record_event :: "event \<Rightarrow> 'a \<times> 'w \<times> event list \<Rightarrow> 'a \<times> 'w \<times> event list" where
  "record_event ev r = (case r of (v, w, tr) \<Rightarrow> (v, w, ev # tr))"

primrec run :: "'w env \<Rightarrow> 'a prog \<Rightarrow> 'w \<Rightarrow> 'a \<times> 'w \<times> event list" where
  "run E (Return v) w = (v, w, [])"
| "run E (Log l fmt args p) w = record_event (Logged l fmt args) (run E p w)"
| "run E (Now k) w =
     (case clock E w of (t, w') \<Rightarrow> record_event (ReadClock t) (run E (k t) w'))"
| "run E (Sleep lo hi p) w = record_event (Slept lo hi) (run E p w)"
| "run E (GetMyJid k) w =
     (case get_my_jid E w of (r, w') \<Rightarrow> record_event (GotMyJid r) (run E (k r) w'))"
| "run E (SessionExec s k) w =
     (case session_exec E s w of (r, w') \<Rightarrow> record_event (Executed s r) (run E (k r) w'))"
| "run E (SessionExecGroups cs k) w =
     (case session_exec_groups E cs w of (r, w') \<Rightarrow>
        record_event (ExecutedGroups cs r) (run E (k r) w'))"
| "run E (AgentRun m p x k) w =
     (case agent_run E m p x w of (r, w') \<Rightarrow>
        record_event (AgentRan m p x r) (run E (k r) w'))"
| "run E (AgentRunIntent m p x k) w =
     (case agent_run_intent E m p x w of (r, w') \<Rightarrow>
        record_event (AgentRanIntent m p x r) (run E (k r) w'))"
| "run E (WhatsappSendMessage req k) w =
     (case whatsapp_send_message E req w of (r, w') \<Rightarrow>
        record_event (WhatsappSent req r) (run E (k r) w'))"
| "run E (HandlerSendMessage to_jid txt in_reply_to k) w =
     (case handler_send_message E to_jid txt in_reply_to w of (r, w') \<Rightarrow>
        record_event (HandlerSent to_jid txt in_reply_to r) (run E (k r) w'))"
| "run E (GetRelatedCommunityGroups g k) w =
     (case get_related_community_groups E g w of (r, w') \<Rightarrow>
        record_event (GotRelatedCommunityGroups g r) (run E (k r) w'))"
| "run E (SessionCommit g k) w =
     (case session_commit E g w of (r, w') \<Rightarrow>
        record_event (Committed g r) (run E (k r) w'))"

definition result_of :: "'a \<times> 'w \<times> event list \<Rightarrow> 'a" where
  "result_of r = fst r"

definition trace_of :: "'a \<times> 'w \<times> event list \<Rightarrow> event list" where
  "trace_of r = snd (snd r)"

text \<open>Running \<open>p\<close> and then the program that \<open>f\<close> makes of its result.\<close>

primrec bind :: "'a prog \<Rightarrow> ('a \<Rightarrow> 'b prog) \<Rightarrow> 'b prog" where
  "bind (Return v) f = f v"
| "bind (Log l fmt args p) f = Log l fmt args (bind p f)"
| "bind (Now k) f = Now (\<lambda>t. bind (k t) f)"
| "bind (Sleep lo hi p) f = Sleep lo hi (bind p f)"
| "bind (GetMyJid k) f = GetMyJid (\<lambda>r. bind (k r) f)"
| "bind (SessionExec s k) f = SessionExec s (\<lambda>r. bind (k r) f)"
| "bind (SessionExecGroups cs k) f = SessionExecGroups cs (\<lambda>r. bind (k r) f)"
| "bind (AgentRun m p x k) f = AgentRun m p x (\<lambda>r. bind (k r) f)"
| "bind (AgentRunIntent m p x k) f = AgentRunIntent m p x (\<lambda>r. bind (k r) f)"
| "bind (WhatsappSendMessage req k) f = WhatsappSendMessage req (\<lambda>r. bind (k r) f)"
| "bind (HandlerSendMessage a b c k) f = HandlerSendMessage a b c (\<lambda>r. bind (k r) f)"
| "bind (GetRelatedCommunityGroups g k) f = GetRelatedCommunityGroups g (\<lambda>r. bind (k r) f)"
| "bind (SessionCommit g k) f = SessionCommit g (\<lambda>r. bind (k r) f)"

section \<open>Strings\<close>

text \<open>
  \<open>str.lower\<close> on the ASCII letters (a \<open>char\<close> is a byte), and Python's \<open>needle in hay\<close>
  on strings: \<open>needle\<close> occurs as a contiguous piece of \<open>hay\<close>.
\<close>

definition lower_char :: "char \<Rightarrow> char" where
  "lower_char c =
     (let n = (of_char c :: nat) in if 65 \<le> n \<and> n \<le> 90 then char_of (n + 32) else c)"

definition lower :: "string \<Rightarrow> string" where
  "lower s = map lower_char s"

definition str_in :: "string \<Rightarrow> string \<Rightarrow> bool" where
  "str_in needle hay = sublist needle hay"

section \<open>The intent classifier: \<open>Router._route\<close>\<close>

definition is_content_filter :: "string \<Rightarrow> bool" where
  "is_content_filter body =
     (str_in ''content_filter'' (lower body) \<or>
      str_in ''responsibleaipolicyviolation'' (lower body))"

definition route :: "string \<Rightarrow> (exn + IntentEnum) prog" where
  "route msg =
     AgentRunIntent Settings_chat_model Route_prompt msg (\<lambda>r.
       case r of
         Inr intent \<Rightarrow> Return (Inr intent)
       | Inl (ModelHTTPError body) \<Rightarrow>
           if is_content_filter body
           then Log WARNING ''Content filtered for message routing. Message preview: {}...''
                  [Str (take 50 msg)]
                  (Log DEBUG ''Content filter details: {}'' [Str body]
                     (Return (Inr Intent_other)))
           else Log ERROR ''Model HTTP error in routing: {}'' [Exn (ModelHTTPError body)]
                  (Return (Inl (ModelHTTPError body)))
       | Inl (OtherError e) \<Rightarrow>
           Log ERROR ''Unexpected error in message routing: {}'' [Exn (OtherError e)]
             (Return (Inr Intent_other)))"

text \<open>
  Building the agent (\<open>Agent(...)\<close>, \<open>settings.get_chat_model()\<close>) happens before the
  \<open>try\<close> and is taken not to raise; the call that can fail is \<open>agent.run\<close>.
\<close>

section \<open>Scheduled summarization\<close>

subsection \<open>The retry policy around \<open>summarize\<close>\<close>

text \<open>
  Modelled from the spec: \<open>tenacity\<close> is a library, not among the source files. The
  decorator \<open>@retry(wait=wait_random_exponential(min=1, max=30), stop=stop_after_attempt(6),
  before_sleep=before_sleep_log(logger, logging.DEBUG), reraise=True)\<close> calls the function;
  when the call raises and the attempt number has reached the stop, the last exception is
  raised again; otherwise it logs at debug level, sleeps and calls again with the next
  attempt number. The sleep before attempt \<open>n + 1\<close> is \<open>random.uniform(min, high)\<close> with
  \<open>high = max(min, min(2 ** (n - 1), max))\<close>.
\<close>

definition wait_random_exponential :: "nat \<Rightarrow> nat \<Rightarrow> nat \<Rightarrow> nat \<times> nat" where
  "wait_random_exponential wait_min wait_max attempt_number =
     (wait_min, max wait_min (min (2 ^ (attempt_number - 1)) wait_max))"

function retry :: "nat \<Rightarrow> nat \<Rightarrow> nat \<Rightarrow> (exn + 'a) prog \<Rightarrow> nat \<Rightarrow> (exn + 'a) prog" where
  "retry wait_min wait_max stop_after_attempt fn attempt_number =
     bind fn (\<lambda>r.
       case r of
         Inr v \<Rightarrow> Return (Inr v)
       | Inl e \<Rightarrow>
           if stop_after_attempt \<le> attempt_number then Return (Inl e)
           else (case wait_random_exponential wait_min wait_max attempt_number of
                   (lo, hi) \<Rightarrow>
                     Log DEBUG ''Retrying %s in %s seconds as it %s %s.'' [Exn e]
                       (Sleep lo hi
                          (retry wait_min wait_max stop_after_attempt fn
                             (attempt_number + 1)))))"
  by pat_completeness auto
termination
  by (relation "measure (\<lambda>(wait_min, wait_max, stop_after_attempt, fn, attempt_number).
        stop_after_attempt - attempt_number)") auto

text \<open>
  \<open>chat2text\<close> (\<open>utils.chat_text\<close>) renders the messages for the model; it is not among
  the source files and is a parameter. The caller passes no \<open>chat_model\<close>, so the default
  \<open>OpenAIModel("gpt-4o")\<close> is used.
\<close>

definition summarize ::
  "(Message list \<Rightarrow> string) \<Rightarrow> string \<Rightarrow> Message list \<Rightarrow> chat_model option \<Rightarrow> (exn + string) prog"
where
  "summarize chat2text name messages chat_model =
     retry 1 30 6
       (AgentRun (case chat_model of None \<Rightarrow> OpenAIModel ''gpt-4o'' | Some m \<Rightarrow> m)
          (Group_summary_prompt name) (chat2text messages) (\<lambda>r. Return r))
       1"

subsection \<open>One group: \<open>summarize_and_send_to_group\<close>\<close>

text \<open>\<open>group.group_name or "group"\<close>: \<open>None\<close> and the empty string are both falsy.\<close>

definition name_or :: "string option \<Rightarrow> string \<Rightarrow> string" where
  "name_or n d = (case n of None \<Rightarrow> d | Some s \<Rightarrow> if s = [] then d else s)"

text \<open>The \<open>for cg in community_groups\<close> loop; a send that raises leaves the loop.\<close>

primrec send_to_community_groups :: "string \<Rightarrow> Group list \<Rightarrow> (exn + unit) prog" where
  "send_to_community_groups output [] = Return (Inr ())"
| "send_to_community_groups output (cg # community_groups) =
     WhatsappSendMessage \<lparr>phone = group_jid cg, message = output\<rparr> (\<lambda>r.
       case r of
         Inl e \<Rightarrow> Return (Inl e)
       | Inr _ \<Rightarrow> send_to_community_groups output community_groups)"

text \<open>The body of the second \<open>try\<close>.\<close>

definition send_summary :: "Group \<Rightarrow> string \<Rightarrow> (exn + unit) prog" where
  "send_summary grp output =
     WhatsappSendMessage \<lparr>phone = group_jid grp, message = output\<rparr> (\<lambda>r.
       case r of
         Inl e \<Rightarrow> Return (Inl e)
       | Inr _ \<Rightarrow>
           GetRelatedCommunityGroups grp (\<lambda>r.
             case r of
               Inl e \<Rightarrow> Return (Inl e)
             | Inr community_groups \<Rightarrow> send_to_community_groups output community_groups))"

text \<open>
  The \<open>finally\<close> block. The function mutates the \<open>group\<close> object it was given; the
  object as the function leaves it is returned next to the outcome.
\<close>

definition update_last_summary_sync :: "Group \<Rightarrow> ((exn + unit) \<times> Group) prog" where
  "update_last_summary_sync grp =
     Now (\<lambda>now.
       SessionCommit (grp\<lparr>last_summary_sync := now\<rparr>) (\<lambda>r.
         case r of
           Inl e \<Rightarrow> Return (Inl e, grp\<lparr>last_summary_sync := now\<rparr>)
         | Inr _ \<Rightarrow> Return (Inr (), grp\<lparr>last_summary_sync := now\<rparr>)))"

text \<open>The statement of the first query, given the assistant's own identity.\<close>

definition unseen_messages_stmt :: "Group \<Rightarrow> string \<Rightarrow> stmt" where
  "unseen_messages_stmt grp my_jid =
     order_by_desc
       (where_clause
          (where_clause
             (where_clause select_Message (GroupJidEq (group_jid grp)))
             (TimestampGe (last_summary_sync grp)))
          (SenderJidNe my_jid))"

definition summarize_and_send_to_group ::
  "(Message list \<Rightarrow> string) \<Rightarrow> Group \<Rightarrow> ((exn + unit) \<times> Group) prog"
where
  "summarize_and_send_to_group chat2text grp =
     GetMyJid (\<lambda>r.
       case r of
         Inl e \<Rightarrow> Return (Inl e, grp)
       | Inr my_jid \<Rightarrow>
     SessionExec (unseen_messages_stmt grp my_jid) (\<lambda>r.
       case r of
         Inl e \<Rightarrow> Return (Inl e, grp)
       | Inr messages \<Rightarrow>
     if length messages < 15
     then Log INFO ''Not enough messages to summarize in group %s'' [OptStr (group_name grp)]
            (Return (Inr (), grp))
     else
     bind (summarize chat2text (name_or (group_name grp) ''group'') messages None) (\<lambda>r.
       case r of
         Inl (ModelHTTPError body) \<Rightarrow>
           if is_content_filter body
           then Log WARNING ''Content filtered during automatic summarization for group %s''
                  [OptStr (group_name grp)]
                  (Log DEBUG ''Content filter details: %s'' [Str body]
                     (Return (Inr (), grp)))
           else Log ERROR ''Model HTTP error summarizing group %s: %s''
                  [OptStr (group_name grp), Exn (ModelHTTPError body)]
                  (Return (Inr (), grp))
       | Inl (OtherError e) \<Rightarrow>
           Log ERROR ''Error summarizing group %s: %s''
             [OptStr (group_name grp), Exn (OtherError e)]
             (Return (Inr (), grp))
       | Inr output \<Rightarrow>
     bind (send_summary grp output) (\<lambda>r.
       case r of
         Inl e \<Rightarrow>
           Log ERROR ''Error sending message to group %s: %s''
             [OptStr (group_name grp), Exn e]
             (update_last_summary_sync grp)
       | Inr _ \<Rightarrow> update_last_summary_sync grp))))"

subsection \<open>All managed groups: \<open>summarize_and_send_to_groups\<close>\<close>






section \<open>On-demand summarization: \<open>Router.summarize\<close>\<close>

text \<open>\<open>timedelta(hours=h)\<close> in microseconds.\<close>

definition hours :: "int \<Rightarrow> int" where
  "hours h = h * 3600 * 1000000"

text \<open>\<open>f"{message.text}"\<close>: a missing text prints as \<open>None\<close>.\<close>

definition str_of_text :: "string option \<Rightarrow> string" where
  "str_of_text t = (case t of None \<Rightarrow> ''None'' | Some s \<Rightarrow> s)"

text \<open>The \<open>except\<close> clauses of \<open>Router.summarize\<close>; the apology itself is not guarded.\<close>

definition summarize_failed :: "Message \<Rightarrow> exn \<Rightarrow> (exn + unit) prog" where
  "summarize_failed msg e =
     (case e of
        ModelHTTPError body \<Rightarrow>
          if is_content_filter body
          then Log WARNING ''Content filtered during summarization for chat {}''
                 [Str (chat_jid msg)]
                 (Log DEBUG ''Content filter details: {}'' [Str body]
                    (HandlerSendMessage (chat_jid msg)
                       ''I'm sorry, but I can't summarize today's messages due to content policy restrictions. Some messages may contain content that can't be processed.''
                       (message_id msg) (\<lambda>r. Return r)))
          else Log ERROR ''Model HTTP error in summarization: {}'' [Exn e]
                 (HandlerSendMessage (chat_jid msg)
                    ''I encountered an error while trying to summarize today's messages. Please try again later.''
                    (message_id msg) (\<lambda>r. Return r))
      | OtherError x \<Rightarrow>
          Log ERROR ''Unexpected error in summarization: {}'' [Exn e]
            (HandlerSendMessage (chat_jid msg)
               ''I encountered an unexpected error while summarizing. Please try again later.''
               (message_id msg) (\<lambda>r. Return r)))"

text \<open>
  \<open>parse_jid(...).user\<close> (\<open>whatsapp.jid\<close>) and \<open>chat2text\<close> are not among the source
  files and are parameters; \<open>parse_jid\<close> may raise, inside the \<open>try\<close>.
\<close>

text \<open>The statement of the history query, given \<open>time_24_hours_ago\<close>.\<close>

definition history_stmt :: "Message \<Rightarrow> timestamp \<Rightarrow> stmt" where
  "history_stmt msg time_24_hours_ago =
     limit_rows
       (order_by_desc
          (where_clause
             (where_clause select_Message (ChatJidEq (chat_jid msg)))
             (TimestampGe time_24_hours_ago)))
       30"

definition Router_summarize ::
  "(Message list \<Rightarrow> string) \<Rightarrow> (string \<Rightarrow> exn + string) \<Rightarrow> Message \<Rightarrow> (exn + unit) prog"
where
  "Router_summarize chat2text parse_jid_user msg =
     Now (\<lambda>now.
     SessionExec (history_stmt msg (now - hours 24)) (\<lambda>r.
       case r of
         Inl e \<Rightarrow> Return (Inl e)
       | Inr messages \<Rightarrow>
     if messages = []
     then HandlerSendMessage (chat_jid msg) ''No messages found from today to summarize.''
            (message_id msg) (\<lambda>r. Return r)
     else
       case parse_jid_user (sender_jid msg) of
         Inl e \<Rightarrow> summarize_failed msg e
       | Inr user \<Rightarrow>
     AgentRun Settings_chat_model Router_summarize_prompt
       (''@'' @ user @ '': '' @ str_of_text (msg_text msg) @ [CHR 0x0A, CHR 0x0A] @
        '' # History:'' @ [CHR 0x0A] @ '' '' @ chat2text messages) (\<lambda>r.
       case r of
         Inl e \<Rightarrow> summarize_failed msg e
       | Inr output \<Rightarrow>
     HandlerSendMessage (chat_jid msg) output (message_id msg) (\<lambda>r.
       case r of
         Inl e \<Rightarrow> summarize_failed msg e
       | Inr _ \<Rightarrow> Return (Inr ())))))"

section \<open>The embedding batcher: \<open>azure_openai_embed_text\<close>\<close>

text \<open>
  The one collaborator is \<open>embedding_client.embeddings.create(model, input)\<close>; its answer
  is read at \<open>[embedding.embedding for embedding in response.data]\<close>. A vector is a list
  of floats; nothing here looks inside one, so its type is left open.
\<close>

datatype 'v embed_prog =
    EmbedReturn "exn + 'v list"
  | EmbeddingsCreate string "string list" "exn + 'v list \<Rightarrow> 'v embed_prog"

definition batch_size :: nat where
  "batch_size = 100"

text \<open>The loop \<open>for i in range(0, len(input), batch_size)\<close>, from index \<open>i\<close> on.\<close>

function embed_batches :: "string list \<Rightarrow> string \<Rightarrow> nat \<Rightarrow> 'v list \<Rightarrow> 'v embed_prog" where
  "embed_batches input model_name i embeddings =
     (if i < length input
      then EmbeddingsCreate model_name (take batch_size (drop i input)) (\<lambda>response.
             case response of
               Inl e \<Rightarrow> EmbedReturn (Inl e)
             | Inr data \<Rightarrow> embed_batches input model_name (i + batch_size) (embeddings @ data))
      else EmbedReturn (Inr embeddings))"
  by pat_completeness auto
termination
  by (relation "measure (\<lambda>(input, model_name, i, embeddings). length input - i)")
     (auto simp: batch_size_def)

definition azure_openai_embed_text :: "string list \<Rightarrow> string \<Rightarrow> 'v embed_prog" where
  "azure_openai_embed_text input model_name = embed_batches input model_name 0 []"

text \<open>A run against a provider: the outcome, the provider's state, and the calls made.\<close>

primrec run_embed ::
  "(string \<Rightarrow> string list \<Rightarrow> 'w \<Rightarrow> (exn + 'v list) \<times> 'w) \<Rightarrow> 'v embed_prog \<Rightarrow> 'w
     \<Rightarrow> (exn + 'v list) \<times> 'w \<times> (string \<times> string list) list"
where
  "run_embed create (EmbedReturn r) w = (r, w, [])"
| "run_embed create (EmbeddingsCreate model_name batch k) w =
     (case create model_name batch w of (r, w') \<Rightarrow>
        (case run_embed create (k r) w' of (v, w'', calls) \<Rightarrow>
           (v, w'', (model_name, batch) # calls)))"

section \<open>Reading a trace\<close>

fun is_agent_run :: "event \<Rightarrow> bool" where
  "is_agent_run (AgentRan m p x r) = True"
| "is_agent_run (AgentRanIntent m p x r) = True"
| "is_agent_run _ = False"

fun is_send :: "event \<Rightarrow> bool" where
  "is_send (WhatsappSent req r) = True"
| "is_send (HandlerSent to_jid txt in_reply_to r) = True"
| "is_send _ = False"

fun is_commit :: "event \<Rightarrow> bool" where
  "is_commit (Committed g r) = True"
| "is_commit _ = False"

fun is_sleep :: "event \<Rightarrow> bool" where
  "is_sleep (Slept lo hi) = True"
| "is_sleep _ = False"

fun is_get_my_jid :: "event \<Rightarrow> bool" where
  "is_get_my_jid (GotMyJid r) = True"
| "is_get_my_jid _ = False"


fun is_Inl :: "'a + 'b \<Rightarrow> bool" where
  "is_Inl (Inl e) = True"
| "is_Inl (Inr v) = False"

text \<open>The call of the event was answered with an exception.\<close>

fun raised :: "event \<Rightarrow> bool" where
  "raised (Logged l fmt args) = False"
| "raised (ReadClock t) = False"
| "raised (Slept lo hi) = False"
| "raised (GotMyJid r) = is_Inl r"
| "raised (Executed s r) = is_Inl r"
| "raised (ExecutedGroups cs r) = is_Inl r"
| "raised (AgentRan m p x r) = is_Inl r"
| "raised (AgentRanIntent m p x r) = is_Inl r"
| "raised (WhatsappSent req r) = is_Inl r"
| "raised (HandlerSent to_jid txt in_reply_to r) = is_Inl r"
| "raised (GotRelatedCommunityGroups g r) = is_Inl r"
| "raised (Committed g r) = is_Inl r"

fun is_log :: "event \<Rightarrow> bool" where
  "is_log (Logged l fmt args) = True"
| "is_log _ = False"

fun logged_at :: "level \<Rightarrow> event \<Rightarrow> bool" where
  "logged_at l (Logged l' fmt args) = (l = l')"
| "logged_at l _ = False"

text \<open>The events of one task in a tagged trace.\<close>

definition events_of :: "nat option \<Rightarrow> (nat option \<times> event) list \<Rightarrow> event list" where
  "events_of who tr = map snd (filter (\<lambda>x. fst x = who) tr)"

text \<open>
  A trace read against a program: \<open>advance\<close> takes the program over one event, when the
  event is the program's next call with some answer, and \<open>replay\<close> over a whole trace.
\<close>

definition advance :: "'a prog \<Rightarrow> event \<Rightarrow> 'a prog option" where
  "advance p ev =
     (case p of
        Return v \<Rightarrow> None
      | Log l fmt args q \<Rightarrow> if ev = Logged l fmt args then Some q else None
      | Now k \<Rightarrow> (case ev of ReadClock t \<Rightarrow> Some (k t) | _ \<Rightarrow> None)
      | Sleep lo hi q \<Rightarrow> if ev = Slept lo hi then Some q else None
      | GetMyJid k \<Rightarrow> (case ev of GotMyJid r \<Rightarrow> Some (k r) | _ \<Rightarrow> None)
      | SessionExec s k \<Rightarrow>
          (case ev of Executed s' r \<Rightarrow> if s' = s then Some (k r) else None | _ \<Rightarrow> None)
      | SessionExecGroups cs k \<Rightarrow>
          (case ev of ExecutedGroups cs' r \<Rightarrow> if cs' = cs then Some (k r) else None
           | _ \<Rightarrow> None)
      | AgentRun m p x k \<Rightarrow>
          (case ev of AgentRan m' p' x' r \<Rightarrow>
             if m' = m \<and> p' = p \<and> x' = x then Some (k r) else None
           | _ \<Rightarrow> None)
      | AgentRunIntent m p x k \<Rightarrow>
          (case ev of AgentRanIntent m' p' x' r \<Rightarrow>
             if m' = m \<and> p' = p \<and> x' = x then Some (k r) else None
           | _ \<Rightarrow> None)
      | WhatsappSendMessage req k \<Rightarrow>
          (case ev of WhatsappSent req' r \<Rightarrow> if req' = req then Some (k r) else None
           | _ \<Rightarrow> None)
      | HandlerSendMessage to_jid txt in_reply_to k \<Rightarrow>
          (case ev of HandlerSent to_jid' txt' in_reply_to' r \<Rightarrow>
             if to_jid' = to_jid \<and> txt' = txt \<and> in_reply_to' = in_reply_to
             then Some (k r) else None
           | _ \<Rightarrow> None)
      | GetRelatedCommunityGroups g k \<Rightarrow>
          (case ev of GotRelatedCommunityGroups g' r \<Rightarrow> if g' = g then Some (k r) else None
           | _ \<Rightarrow> None)
      | SessionCommit g k \<Rightarrow>
          (case ev of Committed g' r \<Rightarrow> if g' = g then Some (k r) else None | _ \<Rightarrow> None))"

primrec replay :: "event list \<Rightarrow> 'a prog \<Rightarrow> 'a prog option" where
  "replay [] p = Some p"
| "replay (ev # tr) p = (case advance p ev of None \<Rightarrow> None | Some q \<Rightarrow> replay tr q)"





section \<open>A scripted environment\<close>

text \<open>
  Collaborators that answer from a script, for running the programs on concrete inputs:
  the persistence session answers queries from two tables, the language model, the
  transport and the clock answer with the next entry of their list (and succeed once the
  list is used up; the assistant's identity is then \<open>bot@s.whatsapp.net\<close>), a commit
  that succeeds writes the group into the table.
\<close>

record world =
  clock_readings :: "timestamp list"
  my_jid_answers :: "(exn + string) list"
  messages_table :: "Message list"
  groups_table :: "Group list"
  community_groups_answer :: "exn + Group list"
  agent_answers :: "(exn + string) list"
  intent_answer :: "exn + IntentEnum"
  send_answers :: "(exn + unit) list"
  commit_answer :: "exn + unit"

definition next_send :: "world \<Rightarrow> (exn + unit) \<times> world" where
  "next_send w =
     (case send_answers w of
        [] \<Rightarrow> (Inr (), w)
      | a # rest \<Rightarrow> (a, w\<lparr>send_answers := rest\<rparr>))"

definition scripted :: "world env" where
  "scripted =
     \<lparr>clock = (\<lambda>w. case clock_readings w of
                       [] \<Rightarrow> (0, w)
                     | t # rest \<Rightarrow> (t, w\<lparr>clock_readings := rest\<rparr>)),
      get_my_jid = (\<lambda>w. case my_jid_answers w of
                       [] \<Rightarrow> (Inr ''bot@s.whatsapp.net'', w)
                     | a # rest \<Rightarrow> (a, w\<lparr>my_jid_answers := rest\<rparr>)),
      session_exec = (\<lambda>s w. (Inr (exec_stmt (messages_table w) s), w)),
      session_exec_groups = (\<lambda>cs w. (Inr (exec_group_stmt (groups_table w) cs), w)),
      agent_run = (\<lambda>m p x w. case agent_answers w of
                       [] \<Rightarrow> (Inr ''summary'', w)
                     | a # rest \<Rightarrow> (a, w\<lparr>agent_answers := rest\<rparr>)),
      agent_run_intent = (\<lambda>m p x w. (intent_answer w, w)),
      whatsapp_send_message = (\<lambda>req w. next_send w),
      handler_send_message = (\<lambda>to_jid txt in_reply_to w. next_send w),
      get_related_community_groups = (\<lambda>g w. (community_groups_answer w, w)),
      session_commit = (\<lambda>g w. case commit_answer w of
                       Inl e \<Rightarrow> (Inl e, w)
                     | Inr u \<Rightarrow>
                         (Inr u, w\<lparr>groups_table :=
                            map (\<lambda>g'. if group_jid g' = group_jid g then g else g')
                              (groups_table w)\<rparr>))\<rparr>"

definition quiet_world :: world where
  "quiet_world =
     \<lparr>clock_readings = [], my_jid_answers = [], messages_table = [],
      groups_table = [], community_groups_answer = Inr [], agent_answers = [],
      intent_answer = Inr Intent_other, send_answers = [], commit_answer = Inr ()\<rparr>"

text \<open>Example data: a managed group with fifteen unseen messages and two community groups.\<close>

definition example_message :: "nat \<Rightarrow> Message" where
  "example_message n =
     \<lparr>message_id = replicate n (CHR ''m''), chat_jid = ''g1@g.us'',
      msg_group_jid = Some ''g1@g.us'', sender_jid = ''alice@s.whatsapp.net'',
      msg_text = Some ''hi'', timestamp = 1000 + int n\<rparr>"

definition fifteen_messages :: "Message list" where
  "fifteen_messages = map example_message [1 ..< 16]"

definition example_group :: Group where
  "example_group =
     \<lparr>group_jid = ''g1@g.us'', group_name = Some ''Team'', managed = True,
      last_summary_sync = 1000\<rparr>"

definition community_one :: Group where
  "community_one =
     \<lparr>group_jid = ''c1@g.us'', group_name = Some ''News'', managed = False,
      last_summary_sync = 0\<rparr>"

definition community_two :: Group where
  "community_two =
     \<lparr>group_jid = ''c2@g.us'', group_name = None, managed = False, last_summary_sync = 0\<rparr>"

text \<open>A stand-in for \<open>chat2text\<close>.\<close>

definition example_chat2text :: "Message list \<Rightarrow> string" where
  "example_chat2text ms = concat (map (\<lambda>m. str_of_text (msg_text m) @ '';'') ms)"

definition busy_world :: world where
  "busy_world =
     quiet_world\<lparr>clock_readings := [2000], messages_table := fifteen_messages,
       groups_table := [example_group],
       community_groups_answer := Inr [community_one, community_two]\<rparr>"

text \<open>A request for a summary, a message of the assistant's own, and a stand-in for
  \<open>parse_jid(...).user\<close>.\<close>

definition request_message :: Message where
  "request_message =
     \<lparr>message_id = ''req1'', chat_jid = ''g1@g.us'', msg_group_jid = Some ''g1@g.us'',
      sender_jid = ''alice@s.whatsapp.net'', msg_text = Some ''What happened today?'',
      timestamp = 2000\<rparr>"


definition example_parse_jid_user :: "string \<Rightarrow> exn + string" where
  "example_parse_jid_user jid = Inr (takeWhile (\<lambda>c. c \<noteq> CHR ''@'') jid)"




text \<open>An embedding provider that answers each text with its length and counts its calls.\<close>

definition count_embedder :: "string \<Rightarrow> string list \<Rightarrow> nat \<Rightarrow> (exn + nat list) \<times> nat" where
  "count_embedder model_name batch calls_so_far = (Inr (map length batch), Suc calls_so_far)"




text \<open>What a run of the retried call can do, and what the second \<open>try\<close> can do.\<close>

definition retry_event :: "event \<Rightarrow> bool" where
  "retry_event ev = (is_agent_run ev \<or> is_sleep ev \<or> logged_at DEBUG ev)"

definition send_event :: "event \<Rightarrow> bool" where
  "send_event ev =
     (case ev of
        WhatsappSent req r \<Rightarrow> True
      | GotRelatedCommunityGroups g r \<Rightarrow> True
      | _ \<Rightarrow> False)"

section \<open>Running programs\<close>

lemma run_bind:
  "run E (bind p f) w =
     (case run E p w of (v, w', tr) \<Rightarrow>
        (case run E (f v) w' of (v', w'', tr') \<Rightarrow> (v', w'', tr @ tr')))"
  by (induction p arbitrary: w) (auto simp: record_event_def split: prod.splits)

lemma not_content_filter_rate_limit: "\<not> is_content_filter ''429 rate limit''"
  by code_simp

lemma content_filter_policy_violation:
  "is_content_filter ''{error: ResponsibleAIPolicyViolation}''"
  by code_simp

subsection \<open>The retried call\<close>

lemma retry_run:
  assumes "run E (retry 1 30 6 (AgentRun m p x (\<lambda>r. Return r)) n) w = (res, w', tr)"
    and "1 \<le> n" and "n \<le> 6"
  shows "list_all retry_event tr \<and>
         1 \<le> length (filter is_agent_run tr) \<and>
         length (filter is_agent_run tr) \<le> 7 - n \<and>
         list_all raised (butlast (filter is_agent_run tr)) \<and>
         last tr = AgentRan m p x res \<and>
         (is_Inl res \<longrightarrow> length (filter is_agent_run tr) = 7 - n) \<and>
         filter is_sleep tr =
           map (\<lambda>k. Slept 1 (min (2 ^ (k - 1)) 30)) [n ..< n + length (filter is_agent_run tr) - 1]"
  using assms
proof (induction "6 - n" arbitrary: n w res w' tr)
  case 0
  then have n: "n = 6" by simp
  show ?case using "0.prems"(1) unfolding n
    by (subst (asm) retry.simps)
       (auto simp: run_bind record_event_def retry_event_def split: prod.splits sum.splits)
next
  case (Suc k)
  then have n: "n < 6" by simp
  obtain r w1 where a: "agent_run E m p x w = (r, w1)" by (cases "agent_run E m p x w")
  show ?case
  proof (cases r)
    case (Inr v)
    then show ?thesis using Suc.prems(1) a n
      by (subst (asm) retry.simps)
         (auto simp: run_bind record_event_def retry_event_def split: prod.splits sum.splits)
  next
    case (Inl e)
    obtain res2 w2 tr2 where r2: "run E (retry 1 30 6 (AgentRun m p x (\<lambda>r. Return r)) (n + 1)) w1 = (res2, w2, tr2)"
      by (cases "run E (retry 1 30 6 (AgentRun m p x (\<lambda>r. Return r)) (n + 1)) w1")
    have ih: "list_all retry_event tr2 \<and>
         1 \<le> length (filter is_agent_run tr2) \<and>
         length (filter is_agent_run tr2) \<le> 7 - (n + 1) \<and>
         list_all raised (butlast (filter is_agent_run tr2)) \<and>
         last tr2 = AgentRan m p x res2 \<and>
         (is_Inl res2 \<longrightarrow> length (filter is_agent_run tr2) = 7 - (n + 1)) \<and>
         filter is_sleep tr2 =
           map (\<lambda>k. Slept 1 (min (2 ^ (k - 1)) 30)) [n + 1 ..< n + 1 + length (filter is_agent_run tr2) - 1]"
      using Suc.hyps(1)[of "n + 1" w1 res2 w2 tr2] Suc.hyps(2) r2 Suc.prems by simp
    have tr: "tr = AgentRan m p x (Inl e) # Logged DEBUG ''Retrying %s in %s seconds as it %s %s.'' [Exn e] #
                 Slept 1 (max 1 (min (2 ^ (n - 1)) 30)) # tr2" and res: "res = res2"
      using Suc.prems(1) a n Inl r2
      by (subst (asm) retry.simps, simp add: run_bind record_event_def wait_random_exponential_def)+
    obtain a rest where f: "filter is_agent_run tr2 = a # rest"
      using ih by (cases "filter is_agent_run tr2") simp_all
    have ne: "tr2 \<noteq> []" using f by auto
    have mx: "max (1::nat) (min (2 ^ (n - 1)) 30) = min (2 ^ (n - 1)) 30" by simp
    let ?F = "\<lambda>k. Slept 1 (min (2 ^ (k - 1)) 30)"
    have runs: "filter is_agent_run tr = AgentRan m p x (Inl e) # a # rest"
      unfolding tr using f by simp
    have sl2: "filter is_sleep tr2 = map ?F [Suc n ..< Suc (n + length rest)]"
      using ih unfolding f by simp
    have sl: "filter is_sleep tr = ?F n # filter is_sleep tr2"
      unfolding tr by (simp add: mx)
    have iv: "[n ..< n + length (AgentRan m p x (Inl e) # a # rest) - 1] =
                n # [Suc n ..< Suc (n + length rest)]"
      by (simp del: upt_Suc add: upt_conv_Cons)
    have sleeps: "filter is_sleep tr =
        map ?F [n ..< n + length (filter is_agent_run tr) - 1]"
      unfolding runs iv sl sl2 by simp
    have others: "list_all retry_event tr \<and>
         1 \<le> length (filter is_agent_run tr) \<and>
         length (filter is_agent_run tr) \<le> 7 - n \<and>
         list_all raised (butlast (filter is_agent_run tr)) \<and>
         last tr = AgentRan m p x res \<and>
         (is_Inl res \<longrightarrow> length (filter is_agent_run tr) = 7 - n)"
      unfolding runs unfolding tr res using ih ne n unfolding f
      by (auto simp: retry_event_def)
    show ?thesis using others sleeps by blast
  qed
qed

subsection \<open>The sends\<close>

lemma send_loop_run:
  "run E (send_to_community_groups out cgs) w = (res, w', tr) \<Longrightarrow>
     list_all send_event tr \<and>
     list_all (\<lambda>ev. \<not> raised ev) (butlast tr) \<and>
     (case res of Inl e \<Rightarrow> tr \<noteq> [] \<and> (\<exists>req. last tr = WhatsappSent req (Inl e))
                | Inr u \<Rightarrow> list_all (\<lambda>ev. \<not> raised ev) tr)"
proof (induction cgs arbitrary: w res w' tr)
  case Nil
  then show ?case by auto
next
  case (Cons cg cgs)
  obtain r w1 where a: "whatsapp_send_message E \<lparr>phone = group_jid cg, message = out\<rparr> w = (r, w1)"
    by (cases "whatsapp_send_message E \<lparr>phone = group_jid cg, message = out\<rparr> w")
  show ?case
  proof (cases r)
    case (Inl e)
    then show ?thesis using Cons.prems a by (auto simp: record_event_def send_event_def)
  next
    case (Inr u)
    obtain res2 w2 tr2 where r2: "run E (send_to_community_groups out cgs) w1 = (res2, w2, tr2)"
      by (cases "run E (send_to_community_groups out cgs) w1")
    have tr: "tr = WhatsappSent \<lparr>phone = group_jid cg, message = out\<rparr> (Inr u) # tr2" and res: "res = res2"
      using Cons.prems a Inr r2 by (auto simp: record_event_def)
    show ?thesis unfolding tr res using Cons.IH[OF r2]
      by (cases res2) (auto simp: send_event_def)
  qed
qed

lemma send_summary_run:
  "run E (send_summary grp out) w = (res, w', tr) \<Longrightarrow>
     list_all send_event tr \<and>
     list_all (\<lambda>ev. \<not> raised ev) (butlast tr) \<and>
     (case res of Inl e \<Rightarrow> tr \<noteq> [] \<and> raised (last tr)
                | Inr u \<Rightarrow> list_all (\<lambda>ev. \<not> raised ev) tr)"
  apply (simp add: send_summary_def record_event_def split: prod.splits sum.splits)
     apply (auto simp: send_event_def dest!: send_loop_run split: sum.splits)
  done

lemma summarize_run:
  assumes "run E (summarize c2t name msgs None) w = (res, w', tr)"
  shows "list_all retry_event tr \<and>
         1 \<le> length (filter is_agent_run tr) \<and>
         length (filter is_agent_run tr) \<le> 6 \<and>
         list_all raised (butlast (filter is_agent_run tr)) \<and>
         last tr = AgentRan (OpenAIModel ''gpt-4o'') (Group_summary_prompt name) (c2t msgs) res \<and>
         (is_Inl res \<longrightarrow> length (filter is_agent_run tr) = 6) \<and>
         filter is_sleep tr =
           map (\<lambda>k. Slept 1 (min (2 ^ (k - 1)) 30)) [1 ..< 1 + length (filter is_agent_run tr) - 1]"
  using retry_run [of E "OpenAIModel ''gpt-4o''" "Group_summary_prompt name" "c2t msgs" 1 w res w' tr]
    assms
  by (simp add: summarize_def)

lemma last_filter_last: "xs \<noteq> [] \<Longrightarrow> P (last xs) \<Longrightarrow> last (filter P xs) = last xs"
  by (induction xs) (auto simp: filter_empty_conv)

lemma summarize_outcome:
  assumes "run E (summarize c2t name msgs None) w = (res, w', tr)"
  shows "case res of
           Inl e \<Rightarrow> list_all raised (filter is_agent_run tr) \<and> length (filter is_agent_run tr) = 6
         | Inr out \<Rightarrow> \<exists>ev\<in>set tr. is_agent_run ev \<and> \<not> raised ev"
proof -
  note s = summarize_run [OF assms]
  let ?a = "AgentRan (OpenAIModel ''gpt-4o'') (Group_summary_prompt name) (c2t msgs) res"
  have ne: "tr \<noteq> []" using s by (cases tr) auto
  have l: "last tr = ?a" using s by simp
  have m: "?a \<in> set tr" using ne l last_in_set by metis
  show ?thesis
  proof (cases res)
    case (Inr out)
    then have "is_agent_run ?a \<and> \<not> raised ?a" by simp
    with m have "\<exists>ev\<in>set tr. is_agent_run ev \<and> \<not> raised ev" by blast
    then show ?thesis using Inr by simp
  next
    case (Inl e)
    let ?runs = "filter is_agent_run tr"
    have lr: "last ?runs = ?a" using l ne by (simp add: last_filter_last)
    have "is_agent_run ?a" by simp
    then have nr: "?runs \<noteq> []" using m unfolding filter_empty_conv by blast
    have eq: "butlast ?runs @ [?a] = ?runs"
      using append_butlast_last_id [OF nr] unfolding lr .
    have "list_all raised (butlast ?runs @ [?a])" using s Inl by simp
    then have "list_all raised ?runs" unfolding eq .
    then show ?thesis using s Inl by simp
  qed
qed


lemma set_butlast_last: "xs \<noteq> [] \<Longrightarrow> set xs = insert (last xs) (set (butlast xs))"
  by (induction xs) auto

lemma last_failure_split:
  "list_all (\<lambda>x. \<not> P x) L \<Longrightarrow> L @ [x] = pre @ y # post \<Longrightarrow> P y \<Longrightarrow>
     post = [] \<and> pre = L \<and> y = x"
proof (induction L arbitrary: pre)
  case Nil
  then show ?case by (cases pre) auto
next
  case (Cons a L)
  then show ?case by (cases pre) auto
qed

lemma send_summary_failure:
  assumes "run E (send_summary grp out) w = (Inl e, w', tr)"
  shows "tr \<noteq> [] \<and>
    ((\<exists>req. last tr = WhatsappSent req (Inl e)) \<or> (last tr = GotRelatedCommunityGroups grp (Inl e)))"
  using assms
  apply (simp add: send_summary_def record_event_def split: prod.splits sum.splits)
  apply (auto dest!: send_loop_run split: sum.splits)
  done

subsection \<open>Kinds of events\<close>

lemma retry_event_kinds:
  "retry_event ev \<Longrightarrow> \<not> is_send ev \<and> \<not> is_commit ev \<and> \<not> is_get_my_jid ev"
  by (cases ev) (auto simp: retry_event_def)

lemma send_event_kinds:
  "send_event ev \<Longrightarrow> \<not> is_agent_run ev \<and> \<not> is_commit ev \<and> \<not> is_log ev \<and> \<not> is_sleep ev"
  by (cases ev) (auto simp: send_event_def)

lemma retry_events_filter:
  "list_all retry_event tr \<Longrightarrow> filter is_send tr = [] \<and> filter is_commit tr = []"
  by (auto simp: filter_empty_conv list_all_iff dest: retry_event_kinds)

lemma send_events_filter:
  "list_all send_event tr \<Longrightarrow>
     filter is_agent_run tr = [] \<and> filter is_commit tr = [] \<and> filter is_sleep tr = []"
  by (auto simp: filter_empty_conv list_all_iff dest: send_event_kinds)

lemma log_events_filter:
  "list_all is_log tr \<Longrightarrow>
     filter is_agent_run tr = [] \<and> filter is_commit tr = [] \<and> filter is_send tr = [] \<and>
     filter is_sleep tr = []"
proof -
  have "is_log ev \<Longrightarrow> \<not> is_agent_run ev \<and> \<not> is_commit ev \<and> \<not> is_send ev \<and> \<not> is_sleep ev" for ev
    by (cases ev) auto
  then show "list_all is_log tr \<Longrightarrow> ?thesis"
    by (auto simp: filter_empty_conv list_all_iff)
qed

subsection \<open>The ways a run of \<open>summarize_and_send_to_group\<close> can go\<close>

lemma unit_cases:
  assumes "run E (summarize_and_send_to_group c2t grp) w = (res, w', tr)"
  obtains
    (identity_failed) e where "tr = [GotMyJid (Inl e)]" "res = (Inl e, grp)"
  | (query_failed) j e where
      "tr = [GotMyJid (Inr j), Executed (unseen_messages_stmt grp j) (Inl e)]"
      "res = (Inl e, grp)"
  | (too_few) j msgs where "length msgs < 15"
      "tr = [GotMyJid (Inr j), Executed (unseen_messages_stmt grp j) (Inr msgs),
             Logged INFO ''Not enough messages to summarize in group %s'' [OptStr (group_name grp)]]"
      "res = (Inr (), grp)"
  | (generation_failed) j msgs w2 w3 trs e logs where "\<not> length msgs < 15"
      "run E (summarize c2t (name_or (group_name grp) ''group'') msgs None) w2 = (Inl e, w3, trs)"
      "tr = GotMyJid (Inr j) # Executed (unseen_messages_stmt grp j) (Inr msgs) # trs @ logs"
      "logs \<noteq> []" "list_all is_log logs"
      "logged_at WARNING (hd logs) \<or> logged_at ERROR (hd logs)"
      "res = (Inr (), grp)"
  | (generated) j msgs w2 w3 trs out w4 r trx now rc where "\<not> length msgs < 15"
      "run E (summarize c2t (name_or (group_name grp) ''group'') msgs None) w2 = (Inr out, w3, trs)"
      "run E (send_summary grp out) w3 = (r, w4, trx)"
      "tr = GotMyJid (Inr j) # Executed (unseen_messages_stmt grp j) (Inr msgs) # trs @ trx @
            (case r of
               Inl e \<Rightarrow> [Logged ERROR ''Error sending message to group %s: %s''
                           [OptStr (group_name grp), Exn e]]
             | Inr u \<Rightarrow> []) @
            [ReadClock now, Committed (grp\<lparr>last_summary_sync := now\<rparr>) rc]"
      "res = (rc, grp\<lparr>last_summary_sync := now\<rparr>)"
proof -
  obtain r1 w1 where a1: "get_my_jid E w = (r1, w1)" by (cases "get_my_jid E w")
  show thesis
  proof (cases r1)
    case (Inl e)
    with assms a1 have "tr = [GotMyJid (Inl e)]" "res = (Inl e, grp)"
      by (auto simp: summarize_and_send_to_group_def record_event_def)
    then show thesis by (rule identity_failed)
  next
    case j: (Inr j)
    obtain r2 w2 where a2: "session_exec E (unseen_messages_stmt grp j) w1 = (r2, w2)"
      by (cases "session_exec E (unseen_messages_stmt grp j) w1")
    show thesis
    proof (cases r2)
      case (Inl e)
      with assms a1 a2 j
      have "tr = [GotMyJid (Inr j), Executed (unseen_messages_stmt grp j) (Inl e)]"
        "res = (Inl e, grp)"
        by (auto simp: summarize_and_send_to_group_def record_event_def)
      then show thesis by (rule query_failed)
    next
      case m: (Inr msgs)
      show thesis
      proof (cases "length msgs < 15")
        case True
        with assms a1 a2 j m
        have "tr = [GotMyJid (Inr j), Executed (unseen_messages_stmt grp j) (Inr msgs),
             Logged INFO ''Not enough messages to summarize in group %s'' [OptStr (group_name grp)]]"
          "res = (Inr (), grp)"
          by (auto simp: summarize_and_send_to_group_def record_event_def)
        with True show thesis by (rule too_few)
      next
        case False
        obtain rs w3 trs where a3:
          "run E (summarize c2t (name_or (group_name grp) ''group'') msgs None) w2 = (rs, w3, trs)"
          by (cases "run E (summarize c2t (name_or (group_name grp) ''group'') msgs None) w2")
        show thesis
        proof (cases rs)
          case e: (Inl e)
          define logs where "logs = (case e of
              ModelHTTPError body \<Rightarrow>
                if is_content_filter body
                then [Logged WARNING ''Content filtered during automatic summarization for group %s''
                        [OptStr (group_name grp)],
                      Logged DEBUG ''Content filter details: %s'' [Str body]]
                else [Logged ERROR ''Model HTTP error summarizing group %s: %s''
                        [OptStr (group_name grp), Exn (ModelHTTPError body)]]
            | OtherError x \<Rightarrow>
                [Logged ERROR ''Error summarizing group %s: %s''
                   [OptStr (group_name grp), Exn (OtherError x)]])"
          have l: "logs \<noteq> []" "list_all is_log logs"
            "logged_at WARNING (hd logs) \<or> logged_at ERROR (hd logs)"
            by (auto simp: logs_def split: exn.splits)
          from assms a1 a2 j m False a3 e
          have "tr = GotMyJid (Inr j) # Executed (unseen_messages_stmt grp j) (Inr msgs) # trs @ logs"
            "res = (Inr (), grp)"
            by (auto simp: summarize_and_send_to_group_def record_event_def run_bind logs_def
                split: exn.splits if_splits)
          with False a3 e l show thesis using generation_failed by blast
        next
          case out: (Inr out)
          obtain r w4 trx where a4: "run E (send_summary grp out) w3 = (r, w4, trx)"
            by (cases "run E (send_summary grp out) w3")
          obtain now w5 where a5: "clock E w4 = (now, w5)" by (cases "clock E w4")
          obtain rc w6 where a6: "session_commit E (grp\<lparr>last_summary_sync := now\<rparr>) w5 = (rc, w6)"
            by (cases "session_commit E (grp\<lparr>last_summary_sync := now\<rparr>) w5")
          from assms a1 a2 j m False a3 out a4 a5 a6
          have "tr = GotMyJid (Inr j) # Executed (unseen_messages_stmt grp j) (Inr msgs) # trs @ trx @
            (case r of
               Inl e \<Rightarrow> [Logged ERROR ''Error sending message to group %s: %s''
                           [OptStr (group_name grp), Exn e]]
             | Inr u \<Rightarrow> []) @
            [ReadClock now, Committed (grp\<lparr>last_summary_sync := now\<rparr>) rc]"
            "res = (rc, grp\<lparr>last_summary_sync := now\<rparr>)"
            by (auto simp: summarize_and_send_to_group_def update_last_summary_sync_def
                record_event_def run_bind split: sum.splits)
          with False a3 out a4 show thesis using generated by blast
        qed
      qed
    qed
  qed
qed

subsection \<open>What the database answers to the first query\<close>


subsection \<open>Reading a run\<close>


lemma result_of_record_event: "result_of (record_event ev r) = result_of r"
  by (cases r) (simp add: result_of_def record_event_def)

subsection \<open>What the database answers to the history query\<close>

lemma exec_history:
  "exec_stmt table (history_stmt msg t) =
     take 30 (sort_key (\<lambda>m. - timestamp m)
       (filter (\<lambda>m. chat_jid m = chat_jid msg \<and> t \<le> timestamp m) table))"
  by (simp add: exec_stmt_def history_stmt_def limit_rows_def order_by_desc_def where_clause_def
        select_Message_def)

lemma newest_first:
  assumes "sorted (map (\<lambda>m. - timestamp m) rows)"
  shows "\<forall>i j. i < j \<and> j < length (take n rows) \<longrightarrow>
           timestamp (take n rows ! j) \<le> timestamp (take n rows ! i)"
proof (intro allI impI)
  fix i j assume ij: "i < j \<and> j < length (take n rows)"
  then have "i < j" "j < length rows" "j < n" by simp_all
  with assms have "map (\<lambda>m. - timestamp m) rows ! i \<le> map (\<lambda>m. - timestamp m) rows ! j"
    by (intro sorted_nth_mono) simp_all
  then show "timestamp (take n rows ! j) \<le> timestamp (take n rows ! i)"
    using \<open>i < j\<close> \<open>j < length rows\<close> \<open>j < n\<close> by simp
qed

lemma cut_rows_are_older:
  assumes "sorted (map (\<lambda>m. - timestamp m) rows)" and "m \<in> set rows" and "m \<notin> set (take n rows)"
  shows "length (take n rows) = n \<and> (\<forall>h\<in>set (take n rows). timestamp m \<le> timestamp h)"
proof -
  have "set rows = set (take n rows) \<union> set (drop n rows)"
    by (metis append_take_drop_id set_append)
  with assms(2,3) have d: "m \<in> set (drop n rows)" by simp
  then have "drop n rows \<noteq> []" by auto
  then have len: "length (take n rows) = n" by simp
  have "sorted (map (\<lambda>m. - timestamp m) (take n rows) @ map (\<lambda>m. - timestamp m) (drop n rows))"
    using assms(1) by (metis append_take_drop_id map_append)
  then have "\<forall>x\<in>set (take n rows). \<forall>y\<in>set (drop n rows). - timestamp x \<le> - timestamp y"
    by (simp add: sorted_append)
  with d len show ?thesis by auto
qed

subsection \<open>The fan-out\<close>




lemma events_of_append [simp]: "events_of who (a @ b) = events_of who a @ events_of who b"
  by (simp add: events_of_def)

lemma events_of_tagged [simp]:
  "events_of who (map (Pair who') evs) = (if who = who' then evs else [])"
  by (induction evs) (auto simp: events_of_def)














lemma run_replay: "run E p w = (v, w', tr) \<Longrightarrow> replay tr p = Some (Return v)"
proof (induction p arbitrary: w w' tr)
  case (Return x)
  then show ?case by auto
qed (auto simp: advance_def record_event_def split: prod.splits)





subsection \<open>The batches\<close>

lemma calls_count:
  assumes "i < (n::nat)"
  shows "Suc ((n - (i + 100) + 99) div 100) = (n - i + 99) div 100"
proof (cases "n - i < 100")
  case True
  then have a: "n - (i + 100) = 0" by linarith
  have "(n - i + 99) div 100 = 1"
    using True assms by (intro div_nat_eqI) simp_all
  then show ?thesis unfolding a by simp
next
  case False
  then have "n - i + 99 = (n - (i + 100) + 99) + 100" by linarith
  then have "(n - i + 99) div 100 = ((n - (i + 100) + 99) + 100) div 100" by (rule arg_cong)
  also have "\<dots> = (n - (i + 100) + 99) div 100 + 1" by (rule div_add_self2) simp
  finally show ?thesis by linarith
qed

lemma embed_batches_run:
  "\<forall>batch w. \<exists>vs w'. create model_name batch w = (Inr vs, w') \<and> list_all2 R batch vs \<Longrightarrow>
   run_embed create (embed_batches input model_name i acc) w = (res, w', calls) \<Longrightarrow>
    (\<exists>vs. res = Inr (acc @ vs) \<and> list_all2 R (drop i input) vs) \<and>
    length calls = (length input - i + 99) div 100 \<and>
    (\<forall>k < length calls. calls ! k = (model_name, take 100 (drop (i + 100 * k) input)))"
proof (induction input model_name i acc arbitrary: w res w' calls rule: embed_batches.induct)
  case (1 input model_name i acc)
  note contract = "1.prems"(1) and run = "1.prems"(2)
  show ?case
  proof (cases "i < length input")
    case False
    then show ?thesis using run by (subst (asm) embed_batches.simps) auto
  next
    case True
    let ?batch = "take 100 (drop i input)"
    from contract obtain data w1 where c: "create model_name ?batch w = (Inr data, w1)"
      and d: "list_all2 R ?batch data"
      by blast
    obtain res2 w2 calls2 where
      r2: "run_embed create (embed_batches input model_name (i + batch_size) (acc @ data)) w1 =
             (res2, w2, calls2)"
      by (cases "run_embed create (embed_batches input model_name (i + batch_size) (acc @ data)) w1")
    have eq: "res = res2" "calls = (model_name, ?batch) # calls2"
      using run True c r2
      by (subst (asm) embed_batches.simps, simp add: batch_size_def)+
    note ih = "1.IH" [OF True contract r2]
    from ih obtain vs2 where v: "res2 = Inr ((acc @ data) @ vs2)"
      "list_all2 R (drop (i + batch_size) input) vs2" by blast
    have id: "?batch @ drop (i + batch_size) input = drop i input"
      using append_take_drop_id [of 100 "drop i input"] by (simp add: batch_size_def add.commute)
    have "list_all2 R (?batch @ drop (i + batch_size) input) (data @ vs2)"
      using d v(2) by (rule list_all2_appendI)
    then have a: "list_all2 R (drop i input) (data @ vs2)" unfolding id .
    have len2: "length calls2 = (length input - (i + 100) + 99) div 100"
      using ih by (simp add: batch_size_def)
    have "length calls = Suc (length calls2)" unfolding eq by simp
    also have "\<dots> = Suc ((length input - (i + 100) + 99) div 100)" by (simp only: len2)
    also have "\<dots> = (length input - i + 99) div 100" by (rule calls_count [OF True])
    finally have len: "length calls = (length input - i + 99) div 100" .
    have idx: "\<forall>k < length calls. calls ! k = (model_name, take 100 (drop (i + 100 * k) input))"
    proof (intro allI impI)
      fix k assume k: "k < length calls"
      show "calls ! k = (model_name, take 100 (drop (i + 100 * k) input))"
      proof (cases k)
        case 0
        then show ?thesis unfolding eq by simp
      next
        case (Suc k')
        then have "k' < length calls2" using k unfolding eq by simp
        with ih have "calls2 ! k' = (model_name, take 100 (drop (i + batch_size + 100 * k') input))"
          by blast
        then show ?thesis unfolding eq Suc by (simp add: batch_size_def add.assoc)
      qed
    qed
    show ?thesis using v(1) a len idx unfolding eq by auto
  qed
qed

section \<open>Claims about the intent classifier\<close>

text \<open>
  C1, as stated, fails: a \<open>ModelHTTPError\<close> whose body carries no content-moderation
  marker is logged at error level and raised again (\<open>raise\<close> in the \<open>else\<close> branch of
  \<open>_route\<close>), so the classifier does raise to its caller. Here the model answers with a
  rate-limit error and \<open>_route\<close> raises that error.
\<close>

theorem route_reraises_http_error_counterexample:
  "result_of (run scripted (route ''hello'')
      (quiet_world\<lparr>intent_answer := Inl (ModelHTTPError ''429 rate limit'')\<rparr>)) =
     Inl (ModelHTTPError ''429 rate limit'')"
  by (simp add: route_def scripted_def quiet_world_def result_of_def record_event_def
        not_content_filter_rate_limit)

text \<open>
  C1, amended: whatever the language model answers, \<open>_route\<close> ends in one of four ways.
  On success it returns the classified intent. On a \<open>ModelHTTPError\<close> that is
  content-moderation-classified it logs at warning level (not at error level) and
  returns \<open>other\<close>. On a \<open>ModelHTTPError\<close> that is not, it logs at error level and raises
  the error again. On any other exception it logs at error level and returns \<open>other\<close>.
\<close>

theorem route_outcomes:
  assumes "agent_run_intent E Settings_chat_model Route_prompt msg w = (r, w')"
  shows "(\<forall>intent. r = Inr intent \<longrightarrow>
            result_of (run E (route msg) w) = Inr intent) \<and>
         (\<forall>body. r = Inl (ModelHTTPError body) \<and> is_content_filter body \<longrightarrow>
            result_of (run E (route msg) w) = Inr Intent_other \<and>
            filter (logged_at WARNING) (trace_of (run E (route msg) w)) \<noteq> [] \<and>
            filter (logged_at ERROR) (trace_of (run E (route msg) w)) = []) \<and>
         (\<forall>body. r = Inl (ModelHTTPError body) \<and> \<not> is_content_filter body \<longrightarrow>
            result_of (run E (route msg) w) = Inl (ModelHTTPError body) \<and>
            filter (logged_at ERROR) (trace_of (run E (route msg) w)) \<noteq> []) \<and>
         (\<forall>e. r = Inl (OtherError e) \<longrightarrow>
            result_of (run E (route msg) w) = Inr Intent_other \<and>
            filter (logged_at ERROR) (trace_of (run E (route msg) w)) \<noteq> [])"
  using assms
  by (simp add: route_def record_event_def result_of_def trace_of_def)

theorem route_outcomes_witness:
  "result_of (run scripted (route ''hello'')
      (quiet_world\<lparr>intent_answer := Inr Intent_about\<rparr>)) = Inr Intent_about \<and>
   result_of (run scripted (route ''hello'')
      (quiet_world\<lparr>intent_answer :=
         Inl (ModelHTTPError ''{error: ResponsibleAIPolicyViolation}'')\<rparr>)) = Inr Intent_other \<and>
   result_of (run scripted (route ''hello'')
      (quiet_world\<lparr>intent_answer := Inl (ModelHTTPError ''429 rate limit'')\<rparr>)) =
     Inl (ModelHTTPError ''429 rate limit'') \<and>
   result_of (run scripted (route ''hello'')
      (quiet_world\<lparr>intent_answer := Inl (OtherError ''timeout'')\<rparr>)) = Inr Intent_other"
proof -
  have a: "agent_run_intent scripted Settings_chat_model Route_prompt ''hello''
             (quiet_world\<lparr>intent_answer := r\<rparr>) = (r, quiet_world\<lparr>intent_answer := r\<rparr>)" for r
    by (simp add: scripted_def)
  show ?thesis
    using route_outcomes [OF a [of "Inr Intent_about"]]
      route_outcomes [OF a [of "Inl (ModelHTTPError ''{error: ResponsibleAIPolicyViolation}'')"]]
      route_outcomes [OF a [of "Inl (ModelHTTPError ''429 rate limit'')"]]
      route_outcomes [OF a [of "Inl (OtherError ''timeout'')"]]
      not_content_filter_rate_limit content_filter_policy_violation
    by simp
qed

section \<open>Claims about scheduled summarization\<close>

subsection \<open>Delivery failures\<close>

text \<open>
  C2, as stated, fails: all sends sit in one \<open>try\<close>, so the first send that raises
  leaves the block and the destinations after it are never tried. Here the group has two
  community groups and the send to the first of them times out: the second gets nothing.
\<close>

theorem failed_send_skips_remaining_counterexample:
  "filter is_send (trace_of (run scripted
      (summarize_and_send_to_group example_chat2text example_group)
      (busy_world\<lparr>send_answers := [Inr (), Inl (OtherError ''timeout'')]\<rparr>))) =
   [WhatsappSent \<lparr>phone = ''g1@g.us'', message = ''summary''\<rparr> (Inr ()),
    WhatsappSent \<lparr>phone = ''c1@g.us'', message = ''summary''\<rparr> (Inl (OtherError ''timeout''))]"
  by code_simp

text \<open>
  C2, amended: in scheduled per-group summarization, a failure while sending the summary
  to a destination (the main group or a community group) is caught and logged at error
  level, and the watermark is still advanced; the destinations after the failing one are
  not attempted. In every run, a send that raised is the last send of the run, every send
  before it succeeded, its exception is the one logged, and the run still ends with the
  group carrying a new watermark.
\<close>

theorem failed_send_ends_sending:
  assumes "run E (summarize_and_send_to_group c2t grp) w = (res, w', tr)"
    and "filter is_send tr = pre @ ev # post"
    and "raised ev"
  shows "post = [] \<and>
         list_all (\<lambda>ev. \<not> raised ev) pre \<and>
         (\<exists>req e. ev = WhatsappSent req (Inl e) \<and>
            Logged ERROR ''Error sending message to group %s: %s''
              [OptStr (group_name grp), Exn e] \<in> set tr) \<and>
         (\<exists>now rc. res = (rc, grp\<lparr>last_summary_sync := now\<rparr>) \<and>
            last tr = Committed (grp\<lparr>last_summary_sync := now\<rparr>) rc)"
  using assms(1)
proof (cases rule: unit_cases)
  case (identity_failed e)
  then show ?thesis using assms(2) by simp
next
  case (query_failed j e)
  then show ?thesis using assms(2) by simp
next
  case (too_few j msgs)
  then show ?thesis using assms(2) by simp
next
  case (generation_failed j msgs w2 w3 trs e logs)
  then show ?thesis
    using assms(2) summarize_run [OF generation_failed(2)]
      retry_events_filter [of trs] log_events_filter [of logs]
    by simp
next
  case (generated j msgs w2 w3 trs out w4 r trx now rc)
  note ss = send_summary_run [OF generated(3)]
  have sends: "filter is_send trx = pre @ ev # post"
    using generated assms(2) summarize_run [OF generated(2)] retry_events_filter [of trs]
    by (auto split: sum.splits)
  have "ev \<in> set (filter is_send trx)" unfolding sends by simp
  then have "ev \<in> set trx" by simp
  with assms(3) ss obtain e where r: "r = Inl e"
    by (cases r) (auto simp: list_all_iff)
  note f = send_summary_failure [OF generated(3) [unfolded r]]
  have ne: "trx \<noteq> []" using f by simp
  have evlast: "ev = last trx"
  proof (rule ccontr)
    assume "ev \<noteq> last trx"
    with \<open>ev \<in> set trx\<close> set_butlast_last [OF ne] have "ev \<in> set (butlast trx)"
      by simp
    with ss assms(3) show False by (auto simp: list_all_iff)
  qed
  have "is_send ev" using \<open>ev \<in> set (filter is_send trx)\<close> by simp
  have t: "trx = butlast trx @ [ev]" using ne evlast by simp
  have "filter is_send trx = filter is_send (butlast trx @ [ev])"
    by (rule arg_cong [OF t])
  also have "\<dots> = filter is_send (butlast trx) @ [ev]" using \<open>is_send ev\<close> by simp
  finally have split: "filter is_send trx = filter is_send (butlast trx) @ [ev]" .
  have nb: "list_all (\<lambda>x. \<not> raised x) (filter is_send (butlast trx))"
    using ss by (auto simp: list_all_iff)
  from last_failure_split [OF nb split [unfolded sends, symmetric] assms(3)]
  have p: "post = []" "pre = filter is_send (butlast trx)" by simp_all
  obtain req where ev: "ev = WhatsappSent req (Inl e)"
    using f evlast \<open>is_send ev\<close> by auto
  have "\<exists>now rc. res = (rc, grp\<lparr>last_summary_sync := now\<rparr>) \<and>
            last tr = Committed (grp\<lparr>last_summary_sync := now\<rparr>) rc"
    using generated by auto
  moreover have "Logged ERROR ''Error sending message to group %s: %s''
              [OptStr (group_name grp), Exn e] \<in> set tr"
    using generated r by simp
  ultimately show ?thesis using p nb ev by blast
qed

theorem failed_send_ends_sending_witness:
  "filter is_send (trace_of (run scripted
      (summarize_and_send_to_group example_chat2text example_group)
      (busy_world\<lparr>send_answers := [Inr (), Inl (OtherError ''timeout'')]\<rparr>))) =
     [WhatsappSent \<lparr>phone = ''g1@g.us'', message = ''summary''\<rparr> (Inr ())] @
     WhatsappSent \<lparr>phone = ''c1@g.us'', message = ''summary''\<rparr> (Inl (OtherError ''timeout'')) # [] \<and>
   raised (WhatsappSent \<lparr>phone = ''c1@g.us'', message = ''summary''\<rparr>
      (Inl (OtherError ''timeout''))) \<and>
   (\<exists>req e. WhatsappSent \<lparr>phone = ''c1@g.us'', message = ''summary''\<rparr>
               (Inl (OtherError ''timeout'')) = WhatsappSent req (Inl e) \<and>
      Logged ERROR ''Error sending message to group %s: %s''
        [OptStr (group_name example_group), Exn e]
        \<in> set (trace_of (run scripted
             (summarize_and_send_to_group example_chat2text example_group)
             (busy_world\<lparr>send_answers := [Inr (), Inl (OtherError ''timeout'')]\<rparr>)))) \<and>
   (\<exists>now rc. result_of (run scripted
             (summarize_and_send_to_group example_chat2text example_group)
             (busy_world\<lparr>send_answers := [Inr (), Inl (OtherError ''timeout'')]\<rparr>)) =
           (rc, example_group\<lparr>last_summary_sync := now\<rparr>))"
proof -
  let ?R = "run scripted (summarize_and_send_to_group example_chat2text example_group)
      (busy_world\<lparr>send_answers := [Inr (), Inl (OtherError ''timeout'')]\<rparr>)"
  let ?ev = "WhatsappSent \<lparr>phone = ''c1@g.us'', message = ''summary''\<rparr>
      (Inl (OtherError ''timeout''))"
  have r: "?R = (result_of ?R, fst (snd ?R), trace_of ?R)"
    by (simp add: result_of_def trace_of_def)
  have s: "filter is_send (trace_of ?R) =
     [WhatsappSent \<lparr>phone = ''g1@g.us'', message = ''summary''\<rparr> (Inr ())] @ ?ev # []"
    by code_simp
  have e: "raised ?ev" by simp
  show ?thesis using failed_send_ends_sending [OF r s e] s e by blast
qed

subsection \<open>The watermark\<close>

text \<open>
  C3, as stated, fails in its last part: the \<open>finally\<close> block stores the clock reading
  without comparing it with the old watermark, so a clock reading that lies before the
  stored watermark moves the watermark back. Here the watermark is 1000 and the clock
  reads 999.
\<close>

theorem watermark_can_decrease_counterexample:
  "last_summary_sync (snd (result_of (run scripted
      (summarize_and_send_to_group example_chat2text example_group)
      (busy_world\<lparr>clock_readings := [999]\<rparr>)))) = 999 \<and>
   last_summary_sync example_group = 1000"
  by code_simp

text \<open>
  C3, amended: whenever summary generation succeeds, the group's \<open>last_summary_sync\<close> is
  set to the current clock reading and the group is committed, whatever the sends did:
  the run ends with the clock reading and the one commit of the run, and its outcome is
  the commit's. A run in which generation did not succeed leaves the group as it was and
  commits nothing. The watermark does not decrease as long as the clock reading is not
  earlier than the stored watermark.
\<close>

theorem watermark_follows_generation:
  assumes "run E (summarize_and_send_to_group c2t grp) w = (res, w', tr)"
  shows "if \<exists>ev\<in>set tr. is_agent_run ev \<and> \<not> raised ev
         then \<exists>now rc. res = (rc, grp\<lparr>last_summary_sync := now\<rparr>) \<and>
                filter is_commit tr = [Committed (grp\<lparr>last_summary_sync := now\<rparr>) rc] \<and>
                last tr = Committed (grp\<lparr>last_summary_sync := now\<rparr>) rc \<and>
                last (butlast tr) = ReadClock now \<and>
                (last_summary_sync grp \<le> now \<longrightarrow>
                   last_summary_sync grp \<le> last_summary_sync (snd res))
         else snd res = grp \<and> filter is_commit tr = []"
  using assms
proof (cases rule: unit_cases)
  case (identity_failed e)
  then show ?thesis by simp
next
  case (query_failed j e)
  then show ?thesis by simp
next
  case (too_few j msgs)
  then show ?thesis by simp
next
  case (generation_failed j msgs w2 w3 trs e logs)
  note o = summarize_outcome [OF generation_failed(2)]
  have "\<not> (\<exists>ev\<in>set tr. is_agent_run ev \<and> \<not> raised ev)"
    using generation_failed o log_events_filter [of logs]
    by (auto simp: list_all_iff filter_empty_conv)
  then show ?thesis
    using generation_failed summarize_run [OF generation_failed(2)]
      retry_events_filter [of trs] log_events_filter [of logs]
    by auto
next
  case (generated j msgs w2 w3 trs out w4 r trx now rc)
  from summarize_outcome [OF generated(2)]
  have "\<exists>ev\<in>set tr. is_agent_run ev \<and> \<not> raised ev" using generated by auto
  moreover have "filter is_commit tr = [Committed (grp\<lparr>last_summary_sync := now\<rparr>) rc]"
    using generated summarize_run [OF generated(2)] send_summary_run [OF generated(3)]
      retry_events_filter [of trs] send_events_filter [of trx]
    by (auto split: sum.splits)
  moreover have "last tr = Committed (grp\<lparr>last_summary_sync := now\<rparr>) rc"
    "last (butlast tr) = ReadClock now"
    using generated by (simp_all add: butlast_append)
  ultimately show ?thesis using generated by simp
qed

theorem watermark_follows_generation_witness:
  "(\<exists>ev\<in>set (trace_of (run scripted
        (summarize_and_send_to_group example_chat2text example_group)
        (busy_world\<lparr>send_answers := [Inl (OtherError ''timeout'')]\<rparr>))).
      is_agent_run ev \<and> \<not> raised ev) \<and>
   result_of (run scripted
        (summarize_and_send_to_group example_chat2text example_group)
        (busy_world\<lparr>send_answers := [Inl (OtherError ''timeout'')]\<rparr>)) =
     (Inr (), example_group\<lparr>last_summary_sync := 2000\<rparr>) \<and>
   last_summary_sync example_group \<le> 2000 \<and>
   last_summary_sync example_group \<le> last_summary_sync (snd (result_of (run scripted
        (summarize_and_send_to_group example_chat2text example_group)
        (busy_world\<lparr>send_answers := [Inl (OtherError ''timeout'')]\<rparr>))))"
proof -
  let ?R = "run scripted (summarize_and_send_to_group example_chat2text example_group)
      (busy_world\<lparr>send_answers := [Inl (OtherError ''timeout'')]\<rparr>)"
  have r: "?R = (result_of ?R, fst (snd ?R), trace_of ?R)"
    by (simp add: result_of_def trace_of_def)
  have g: "\<exists>ev\<in>set (trace_of ?R). is_agent_run ev \<and> \<not> raised ev"
    by code_simp
  have c: "last (butlast (trace_of ?R)) = ReadClock 2000"
    by code_simp
  have l: "last (trace_of ?R) = Committed (example_group\<lparr>last_summary_sync := 2000\<rparr>) (Inr ())"
    by code_simp
  have old: "last_summary_sync example_group \<le> 2000"
    by (simp add: example_group_def)
  from watermark_follows_generation [OF r] g
  obtain now rc where n: "result_of ?R = (rc, example_group\<lparr>last_summary_sync := now\<rparr>)"
    "last (trace_of ?R) = Committed (example_group\<lparr>last_summary_sync := now\<rparr>) rc"
    "last (butlast (trace_of ?R)) = ReadClock now"
    "last_summary_sync example_group \<le> now \<longrightarrow>
       last_summary_sync example_group \<le> last_summary_sync (snd (result_of ?R))"
    by auto
  from n(3) c have "now = 2000" by simp
  moreover from n(2) l have "rc = Inr ()" by simp
  ultimately show ?thesis using n g old by simp
qed

subsection \<open>Generation failures\<close>



subsection \<open>Fewer than fifteen messages\<close>




subsection \<open>The retry policy\<close>



subsection \<open>The fan-out over the managed groups\<close>



section \<open>Claims about the embedding batcher\<close>

text \<open>
  C8: with a provider that answers every batch with one vector per text, in order
  (\<open>R\<close> relates a text to its vector), \<open>azure_openai_embed_text\<close> returns as many vectors
  as there are texts, the vector at each position being that of the text at that
  position; it makes \<open>\<lceil>N / 100\<rceil>\<close> calls, and call number \<open>k\<close> carries the texts from
  position \<open>100 k\<close> on, at most 100 of them.
\<close>

theorem embed_text_batches:
  assumes "\<forall>batch w. \<exists>vs w'. create model_name batch w = (Inr vs, w') \<and> list_all2 R batch vs"
    and "run_embed create (azure_openai_embed_text input model_name) w = (res, w', calls)"
  shows "(\<exists>vs. res = Inr vs \<and> length vs = length input \<and> list_all2 R input vs) \<and>
         length calls = (length input + 99) div 100 \<and>
         (\<forall>k < length calls. calls ! k = (model_name, take 100 (drop (100 * k) input)))"
proof -
  have r: "run_embed create (embed_batches input model_name 0 []) w = (res, w', calls)"
    using assms(2) by (simp add: azure_openai_embed_text_def)
  note b = embed_batches_run [of create model_name R input 0 "[]" w res w' calls, OF assms(1) r]
  from b obtain vs where vs: "res = Inr vs" "list_all2 R input vs" by auto
  from vs(2) have "length vs = length input" by (simp add: list_all2_lengthD)
  with vs b show ?thesis by simp
qed

theorem embed_text_batches_witness:
  "length (snd (snd (run_embed count_embedder (azure_openai_embed_text [] ''m'') 0))) = 0 \<and>
   length (snd (snd (run_embed count_embedder
      (azure_openai_embed_text (replicate 100 ''t'') ''m'') 0))) = 1 \<and>
   length (snd (snd (run_embed count_embedder
      (azure_openai_embed_text (replicate 101 ''t'') ''m'') 0))) = 2 \<and>
   fst (run_embed count_embedder
      (azure_openai_embed_text (replicate 101 ''t'') ''m'') 0) = Inr (replicate 101 1)"
proof -
  let ?R = "\<lambda>t v. v = length t"
  have c: "\<forall>batch w. \<exists>vs w'. count_embedder ''m'' batch w = (Inr vs, w') \<and> list_all2 ?R batch vs"
    by (simp add: count_embedder_def list_all2_conv_all_nth)
  have r: "run_embed count_embedder p 0 =
        (fst (run_embed count_embedder p 0), fst (snd (run_embed count_embedder p 0)),
         snd (snd (run_embed count_embedder p 0)))" for p :: "nat embed_prog"
    by simp
  have v: "fst (run_embed count_embedder
      (azure_openai_embed_text (replicate 101 ''t'') ''m'') 0) = Inr (replicate 101 1)"
    by code_simp
  show ?thesis
    using embed_text_batches [OF c r, of "[]"]
      embed_text_batches [OF c r, of "replicate 100 ''t''"]
      embed_text_batches [OF c r, of "replicate 101 ''t''"] v
    by simp
qed

section \<open>Claims about on-demand summarization\<close>

text \<open>
  C9: the history that \<open>Router.summarize\<close> fetches has at most 30 messages, all of the
  requesting chat and of the last 24 hours, newest first, and a message of that chat and
  window that was left out is no newer than any that was kept (and then 30 were kept).
  When no message of the table qualifies, the run is the clock reading, the query and one
  reply "No messages found from today to summarize." to the chat, threaded to the
  triggering message: no language-model call.
\<close>

theorem on_demand_history:
  assumes "clock E w = (now, w1)"
    and "session_exec E (history_stmt msg (now - hours 24)) w1 = (Inr history, w2)"
    and "history = exec_stmt table (history_stmt msg (now - hours 24))"
    and "handler_send_message E (chat_jid msg) ''No messages found from today to summarize.''
           (message_id msg) w2 = (r, w3)"
  shows "length history \<le> 30 \<and>
     (\<forall>m\<in>set history. m \<in> set table \<and> chat_jid m = chat_jid msg \<and>
         now - hours 24 \<le> timestamp m) \<and>
     (\<forall>i j. i < j \<and> j < length history \<longrightarrow>
         timestamp (history ! j) \<le> timestamp (history ! i)) \<and>
     (\<forall>m\<in>set table. chat_jid m = chat_jid msg \<and> now - hours 24 \<le> timestamp m \<and>
         m \<notin> set history \<longrightarrow>
         length history = 30 \<and> (\<forall>h\<in>set history. timestamp m \<le> timestamp h)) \<and>
     ((\<forall>m\<in>set table. \<not> (chat_jid m = chat_jid msg \<and> now - hours 24 \<le> timestamp m)) \<longrightarrow>
        run E (Router_summarize chat2text parse_jid_user msg) w =
          (r, w3,
           [ReadClock now,
            Executed (history_stmt msg (now - hours 24)) (Inr []),
            HandlerSent (chat_jid msg) ''No messages found from today to summarize.''
              (message_id msg) r]))"
proof -
  let ?t = "now - hours 24"
  let ?rows = "sort_key (\<lambda>m. - timestamp m)
       (filter (\<lambda>m. chat_jid m = chat_jid msg \<and> ?t \<le> timestamp m) table)"
  have h: "history = take 30 ?rows" using assms(3) by (simp add: exec_history)
  have srt: "sorted (map (\<lambda>m. - timestamp m) ?rows)" by simp
  have 1: "length history \<le> 30" unfolding h by simp
  have 2: "\<forall>m\<in>set history. m \<in> set table \<and> chat_jid m = chat_jid msg \<and> ?t \<le> timestamp m"
  proof
    fix m assume "m \<in> set history"
    then have "m \<in> set ?rows" unfolding h by (rule in_set_takeD)
    then show "m \<in> set table \<and> chat_jid m = chat_jid msg \<and> ?t \<le> timestamp m" by simp
  qed
  have 3: "\<forall>i j. i < j \<and> j < length history \<longrightarrow>
         timestamp (history ! j) \<le> timestamp (history ! i)"
    unfolding h by (rule newest_first [OF srt])
  have 4: "\<forall>m\<in>set table. chat_jid m = chat_jid msg \<and> ?t \<le> timestamp m \<and>
         m \<notin> set history \<longrightarrow>
         length history = 30 \<and> (\<forall>h\<in>set history. timestamp m \<le> timestamp h)"
  proof (intro ballI impI)
    fix m assume "m \<in> set table" and q: "chat_jid m = chat_jid msg \<and> ?t \<le> timestamp m \<and>
         m \<notin> set history"
    then have "m \<in> set ?rows" by simp
    moreover have "m \<notin> set (take 30 ?rows)" using q unfolding h by simp
    ultimately show "length history = 30 \<and> (\<forall>h\<in>set history. timestamp m \<le> timestamp h)"
      unfolding h by (rule cut_rows_are_older [OF srt])
  qed
  have 5: "(\<forall>m\<in>set table. \<not> (chat_jid m = chat_jid msg \<and> ?t \<le> timestamp m)) \<longrightarrow>
        run E (Router_summarize chat2text parse_jid_user msg) w =
          (r, w3,
           [ReadClock now,
            Executed (history_stmt msg ?t) (Inr []),
            HandlerSent (chat_jid msg) ''No messages found from today to summarize.''
              (message_id msg) r])"
  proof
    assume "\<forall>m\<in>set table. \<not> (chat_jid m = chat_jid msg \<and> ?t \<le> timestamp m)"
    then have "filter (\<lambda>m. chat_jid m = chat_jid msg \<and> ?t \<le> timestamp m) table = []"
      by (simp add: filter_empty_conv)
    then have "history = []" unfolding h by simp
    then show "run E (Router_summarize chat2text parse_jid_user msg) w =
          (r, w3,
           [ReadClock now,
            Executed (history_stmt msg ?t) (Inr []),
            HandlerSent (chat_jid msg) ''No messages found from today to summarize.''
              (message_id msg) r])"
      using assms(1,2,4) by (simp add: Router_summarize_def record_event_def)
  qed
  show ?thesis using 1 2 3 4 5 by blast
qed

theorem on_demand_history_witness:
  "filter (\<lambda>m. chat_jid m = chat_jid request_message \<and> hours 48 - hours 24 \<le> timestamp m)
      fifteen_messages = [] \<and>
   run scripted (Router_summarize example_chat2text example_parse_jid_user request_message)
      (quiet_world\<lparr>clock_readings := [hours 48], messages_table := fifteen_messages\<rparr>) =
     (Inr (),
      quiet_world\<lparr>clock_readings := [], messages_table := fifteen_messages\<rparr>,
      [ReadClock (hours 48),
       Executed (history_stmt request_message (hours 48 - hours 24)) (Inr []),
       HandlerSent (chat_jid request_message) ''No messages found from today to summarize.''
         (message_id request_message) (Inr ())])"
proof -
  let ?w = "quiet_world\<lparr>clock_readings := [hours 48], messages_table := fifteen_messages\<rparr>"
  let ?w1 = "quiet_world\<lparr>clock_readings := [], messages_table := fifteen_messages\<rparr>"
  let ?s = "history_stmt request_message (hours 48 - hours 24)"
  have a1: "clock scripted ?w = (hours 48, ?w1)"
    by (simp add: scripted_def quiet_world_def)
  have a2: "session_exec scripted ?s ?w1 = (Inr (exec_stmt fifteen_messages ?s), ?w1)"
    by (simp add: scripted_def)
  have a4: "handler_send_message scripted (chat_jid request_message)
      ''No messages found from today to summarize.'' (message_id request_message) ?w1 =
      (Inr (), ?w1)"
    by (simp add: scripted_def next_send_def quiet_world_def)
  have none: "\<forall>m\<in>set fifteen_messages.
      \<not> (chat_jid m = chat_jid request_message \<and> hours 48 - hours 24 \<le> timestamp m)"
    by code_simp
  then have e: "filter (\<lambda>m. chat_jid m = chat_jid request_message \<and>
      hours 48 - hours 24 \<le> timestamp m) fifteen_messages = []"
    by (simp add: filter_empty_conv)
  show ?thesis
    using on_demand_history [OF a1 a2 refl a4, of example_chat2text example_parse_jid_user]
      none e by blast
qed



end
